theory Spec2Isabelle
  imports Main
begin

section \<open>Strings and bytes\<close>

text \<open>
  A Python \<open>str\<close> is modelled as a \<open>string\<close> whose characters are the code points
  below 256 (Latin-1); \<open>len\<close> is \<open>length\<close>. \<open>bytes\<close> values are lists of
  8-bit characters as well. \<open>str.encode('utf-8')\<close> maps a code point below 128 to
  itself and a code point from 128 to 255 to two bytes.
\<close>

type_synonym bytes = string

definition cp :: "char \<Rightarrow> nat" where
  "cp c = of_char c"

definition utf8_char :: "char \<Rightarrow> bytes" where
  "utf8_char c =
     (if cp c < 128 then [c]
      else [char_of (192 + cp c div 64), char_of (128 + cp c mod 64)])"

definition encode_utf8 :: "string \<Rightarrow> bytes" where
  "encode_utf8 s = concat (map utf8_char s)"

text \<open>\<open>str.lower()\<close> on code points below 256.\<close>

definition lower_char :: "char \<Rightarrow> char" where
  "lower_char c =
     (if (65 \<le> cp c \<and> cp c \<le> 90) \<or> (192 \<le> cp c \<and> cp c \<le> 222 \<and> cp c \<noteq> 215)
      then char_of (cp c + 32) else c)"

definition lower :: "string \<Rightarrow> string" where
  "lower s = map lower_char s"

text \<open>\<open>pattern in s\<close> for strings: \<open>pattern\<close> occurs as a contiguous substring.\<close>

fun contains :: "string \<Rightarrow> string \<Rightarrow> bool" where
  "contains [] pat = (pat = [])"
| "contains (c # cs) pat = (take (length pat) (c # cs) = pat \<or> contains cs pat)"

text \<open>The character classes of the regular expressions in the source.\<close>

definition is_upper :: "char \<Rightarrow> bool" where
  "is_upper c \<longleftrightarrow> 65 \<le> cp c \<and> cp c \<le> 90"

definition is_lower :: "char \<Rightarrow> bool" where
  "is_lower c \<longleftrightarrow> 97 \<le> cp c \<and> cp c \<le> 122"

definition is_digit :: "char \<Rightarrow> bool" where
  "is_digit c \<longleftrightarrow> 48 \<le> cp c \<and> cp c \<le> 57"

definition is_special :: "char \<Rightarrow> bool" where
  "is_special c \<longleftrightarrow> c \<in> set ''!@#$%^&*(),.?\":{}|<>''"

definition is_username_char :: "char \<Rightarrow> bool" where
  "is_username_char c \<longleftrightarrow>
     is_lower c \<or> is_upper c \<or> is_digit c \<or> c = CHR ''_'' \<or> c = CHR ''-''"

section \<open>The bcrypt library, as far as the program uses it\<close>

text \<open>
  \<open>bcrypt\<close> is a third-party package and not part of the repository. Its envelope is
  modelled after the documented behaviour of the 4.x releases; the Blowfish key
  derivation itself is not modelled but taken as a parameter \<open>bf\<close>, which maps the
  29-character settings string (version, work factor, encoded salt) and the key to the
  encoded digest.
  \<^item> \<open>gensalt(rounds)\<close> returns \<open>$2b$\<close>, the two-digit work factor, \<open>$\<close> and 22
    characters encoding 16 random bytes; the random characters are passed in.
  \<^item> \<open>hashpw(password, salt)\<close> raises \<open>ValueError\<close> on a settings string it cannot
    read; otherwise it uses the first 72 bytes of the password only and returns the
    settings followed by the digest.
  \<^item> \<open>checkpw(password, hashed)\<close> is \<open>hashpw(password, hashed)\<close> compared with
    \<open>hashed\<close>.
\<close>

datatype py_error = ValueError

type_synonym digest_fn = "bytes \<Rightarrow> bytes \<Rightarrow> bytes"

definition is_b64 :: "char \<Rightarrow> bool" where
  "is_b64 c \<longleftrightarrow> is_lower c \<or> is_upper c \<or> is_digit c \<or> c = CHR ''.'' \<or> c = CHR ''/''"

definition two_digits :: "nat \<Rightarrow> bytes" where
  "two_digits n = [char_of (48 + n div 10 mod 10), char_of (48 + n mod 10)]"

definition settings_cost :: "bytes \<Rightarrow> nat" where
  "settings_cost s = 10 * (cp (s ! 4) - 48) + (cp (s ! 5) - 48)"

text \<open>
  The settings strings the model reads are those of the layout \<open>gensalt\<close> writes.
  The library's own parser differs from it at the margins: it splits the string at
  \<open>$\<close> before it reads the fields, and it refuses a last salt character that
  carries bits beyond the 16 bytes. The statements about issued hashes use settings
  that \<open>gensalt\<close> writes; the statement about malformed stored hashes does not rest
  on this parser and takes \<open>checkpw\<close> as a parameter.
\<close>

definition valid_settings :: "bytes \<Rightarrow> bool" where
  "valid_settings s \<longleftrightarrow>
     length s = 29 \<and>
     take 4 s \<in> {''$2a$'', ''$2b$'', ''$2x$'', ''$2y$''} \<and>
     is_digit (s ! 4) \<and> is_digit (s ! 5) \<and> s ! 6 = CHR ''$'' \<and>
     4 \<le> settings_cost s \<and> settings_cost s \<le> 31 \<and>
     list_all is_b64 (drop 7 s)"

definition gensalt :: "nat \<Rightarrow> bytes \<Rightarrow> bytes" where
  "gensalt rounds rnd = ''$2b$'' @ two_digits rounds @ ''$'' @ rnd"

definition hashpw :: "digest_fn \<Rightarrow> bytes \<Rightarrow> bytes \<Rightarrow> py_error + bytes" where
  "hashpw bf password salt =
     (if valid_settings (take 29 salt)
      then Inr (take 29 salt @ bf (take 29 salt) (take 72 password))
      else Inl ValueError)"

definition checkpw :: "digest_fn \<Rightarrow> bytes \<Rightarrow> bytes \<Rightarrow> py_error + bool" where
  "checkpw bf password hashed =
     (case hashpw bf password hashed of
        Inl e \<Rightarrow> Inl e
      | Inr ret \<Rightarrow> Inr (ret = hashed))"

text \<open>
  The work factors of the key derivations a call runs, in order; a settings string
  that cannot be read is rejected before any derivation.
\<close>

definition hashpw_work :: "bytes \<Rightarrow> nat list" where
  "hashpw_work salt =
     (if valid_settings (take 29 salt) then [settings_cost (take 29 salt)] else [])"

text \<open>
  A digest function for evaluating the model at concrete inputs: the encoded digest is
  the key itself, so distinct keys never collide.
\<close>

definition key_digest :: digest_fn where
  "key_digest settings key = key"

section \<open>The login system\<close>

text \<open>
  Timestamps are integers counting microseconds. \<open>_is_account_locked\<close> reads
  \<open>datetime.now()\<close> twice on a row with \<open>locked_until\<close> set: on line 98 for the
  test against \<open>locked_until\<close> (\<open>now\<close>), and on line 99 for the remaining time it
  reports (\<open>now'\<close>). \<open>login\<close> reads it once more on line 176 when it locks the
  account; the model uses \<open>now\<close> there as well, and for the columns that SQLite fills
  with \<open>CURRENT_TIMESTAMP\<close>.
  The table \<open>users\<close> is a map from usernames to rows, and every statement on it is
  taken to succeed, so the handlers for storage errors are not modelled.
\<close>

type_synonym timestamp = int

record LoginSystem =
  max_attempts :: int
  lockout_duration :: int
  min_password_length :: nat
  pepper :: string

text \<open>
  \<open>__init__\<close>: \<open>getenv\<close> is the value of the environment variable
  \<open>PASSWORD_PEPPER\<close> if it is set, \<open>token_hex\<close> the value that
  \<open>secrets.token_hex(32)\<close> returns in this run.
\<close>

definition init :: "string option \<Rightarrow> string \<Rightarrow> LoginSystem" where
  "init getenv token_hex =
     \<lparr> max_attempts = 3,
       lockout_duration = 15 * 60 * 1000000,
       min_password_length = 12,
       pepper = (case getenv of Some v \<Rightarrow> v | None \<Rightarrow> token_hex) \<rparr>"

text \<open>\<open>timedelta.seconds // 60\<close> of a difference of timestamps.\<close>

definition seconds_div_60 :: "int \<Rightarrow> int" where
  "seconds_div_60 d = ((d div 1000000) mod 86400) div 60"

text \<open>A row of the table \<open>users\<close>, keyed by \<open>username\<close>.\<close>

record user_row =
  password_hash :: bytes
  failed_attempts :: int
  last_attempt_time :: "timestamp option"
  locked_until :: "timestamp option"
  created_at :: timestamp
  last_login :: "timestamp option"

type_synonym db = "string \<rightharpoonup> user_row"

datatype message =
    PasswordTooShort nat
  | PasswordNoUppercase
  | PasswordNoLowercase
  | PasswordNoNumber
  | PasswordNoSpecial
  | PasswordCommonPattern
  | PasswordOk
  | AccountIsLocked int
  | UsernameTooShort
  | UsernameBadCharacters
  | RegistrationSuccessful
  | UsernameExists
  | RegistrationSystemError
  | InvalidUsernameOrPassword
  | LoginSuccessful
  | AccountLockedTooManyAttempts int
  | LoginSystemError

definition peppered :: "LoginSystem \<Rightarrow> string \<Rightarrow> bytes" where
  "peppered self password = encode_utf8 (password @ pepper self)"

definition hash_password :: "LoginSystem \<Rightarrow> digest_fn \<Rightarrow> bytes \<Rightarrow> string \<Rightarrow> py_error + bytes" where
  "hash_password self bf rnd password = hashpw bf (peppered self password) (gensalt 12 rnd)"

definition verify_password :: "LoginSystem \<Rightarrow> digest_fn \<Rightarrow> string \<Rightarrow> bytes \<Rightarrow> bool" where
  "verify_password self bf password hashed =
     (case checkpw bf (peppered self password) hashed of
        Inr b \<Rightarrow> b
      | Inl ValueError \<Rightarrow> False)"

definition common_patterns :: "string list" where
  "common_patterns = [''password'', ''123'', ''qwerty'', ''admin'']"

definition validate_password_strength :: "LoginSystem \<Rightarrow> string \<Rightarrow> bool \<times> message" where
  "validate_password_strength self password =
     (if length password < min_password_length self
        then (False, PasswordTooShort (min_password_length self))
      else if \<not> list_ex is_upper password then (False, PasswordNoUppercase)
      else if \<not> list_ex is_lower password then (False, PasswordNoLowercase)
      else if \<not> list_ex is_digit password then (False, PasswordNoNumber)
      else if \<not> list_ex is_special password then (False, PasswordNoSpecial)
      else if list_ex (contains (lower password)) common_patterns
        then (False, PasswordCommonPattern)
      else (True, PasswordOk))"

text \<open>
  \<open>_is_account_locked\<close> returns either \<open>(True, message)\<close> or \<open>(False, None)\<close>;
  the model returns \<open>Some message\<close> for the first and \<open>None\<close> for the second,
  next to the table after the call.
\<close>

definition is_account_locked ::
  "timestamp \<Rightarrow> timestamp \<Rightarrow> db \<Rightarrow> string \<Rightarrow> db \<times> message option" where
  "is_account_locked now now' d username =
     (case d username of
        None \<Rightarrow> (d, None)
      | Some row \<Rightarrow>
          (case locked_until row of
             None \<Rightarrow> (d, None)
           | Some t \<Rightarrow>
               if t > now then (d, Some (AccountIsLocked (seconds_div_60 (t - now'))))
               else (d(username \<mapsto> row\<lparr>failed_attempts := 0, locked_until := None\<rparr>),
                     None)))"

text \<open>
  \<open>re.match(r'^[a-zA-Z0-9_-]+$', username)\<close>: \<open>$\<close> also matches just before a
  newline that ends the string.
\<close>

definition username_matches :: "string \<Rightarrow> bool" where
  "username_matches username =
     (let body = (if username \<noteq> [] \<and> last username = CHR 0x0A
                  then butlast username else username)
      in body \<noteq> [] \<and> list_all is_username_char body)"

definition register ::
  "LoginSystem \<Rightarrow> digest_fn \<Rightarrow> timestamp \<Rightarrow> bytes \<Rightarrow> db \<Rightarrow> string \<Rightarrow> string
     \<Rightarrow> db \<times> bool \<times> message" where
  "register self bf now rnd d username password =
     (if username = [] \<or> length username < 3 then (d, False, UsernameTooShort)
      else if \<not> username_matches username then (d, False, UsernameBadCharacters)
      else case validate_password_strength self password of
        (False, msg) \<Rightarrow> (d, False, msg)
      | (True, _) \<Rightarrow>
          (case hash_password self bf rnd password of
             Inl _ \<Rightarrow> (d, False, RegistrationSystemError)
           | Inr h \<Rightarrow>
               (case d username of
                  Some _ \<Rightarrow> (d, False, UsernameExists)
                | None \<Rightarrow>
                    (d(username \<mapsto>
                         \<lparr> password_hash = h, failed_attempts = 0,
                           last_attempt_time = None, locked_until = None,
                           created_at = now, last_login = None \<rparr>),
                     True, RegistrationSuccessful))))"

text \<open>
  The result of \<open>login\<close>: the table after the call, the returned pair, and the work
  factors of the bcrypt key derivations the call ran. For a username that is not in
  the table the call hashes a dummy password under \<open>bcrypt.gensalt()\<close>, whose work
  factor is the library's default.
\<close>

definition default_rounds :: nat where
  "default_rounds = 12"

record login_outcome =
  db_after :: db
  returned :: "bool \<times> message"
  derivations :: "nat list"

definition login ::
  "LoginSystem \<Rightarrow> digest_fn \<Rightarrow> timestamp \<Rightarrow> timestamp \<Rightarrow> db \<Rightarrow> string \<Rightarrow> string
     \<Rightarrow> login_outcome" where
  "login self bf now now' d username password =
     (case is_account_locked now now' d username of
        (d1, Some lock_message) \<Rightarrow>
          \<lparr> db_after = d1, returned = (False, lock_message), derivations = [] \<rparr>
      | (d1, None) \<Rightarrow>
          (case d1 username of
             None \<Rightarrow>
               \<lparr> db_after = d1, returned = (False, InvalidUsernameOrPassword),
                 derivations = [default_rounds] \<rparr>
           | Some row \<Rightarrow>
               if verify_password self bf password (password_hash row) then
                 \<lparr> db_after = d1(username \<mapsto>
                       row\<lparr>failed_attempts := 0, locked_until := None, last_login := Some now\<rparr>),
                   returned = (True, LoginSuccessful),
                   derivations = hashpw_work (password_hash row) \<rparr>
               else
                 let new_failed_attempts = failed_attempts row + 1 in
                 if new_failed_attempts \<ge> max_attempts self then
                   \<lparr> db_after = d1(username \<mapsto>
                         row\<lparr>failed_attempts := new_failed_attempts,
                             locked_until := Some (now + lockout_duration self)\<rparr>),
                     returned = (False, AccountLockedTooManyAttempts
                                   (seconds_div_60 (lockout_duration self))),
                     derivations = hashpw_work (password_hash row) \<rparr>
                 else
                   \<lparr> db_after = d1(username \<mapsto>
                         row\<lparr>failed_attempts := new_failed_attempts,
                             last_attempt_time := Some now\<rparr>),
                     returned = (False, InvalidUsernameOrPassword),
                     derivations = hashpw_work (password_hash row) \<rparr>))"

section \<open>Verification over all Python strings\<close>

text \<open>
  A Python \<open>str\<close> in full is a list of code points, and \<open>str.encode('utf-8')\<close> raises
  \<open>UnicodeEncodeError\<close> on a lone surrogate (U+D800 to U+DFFF); every other code point
  has an encoding of one to four bytes.
\<close>

type_synonym py_str = "nat list"

datatype unicode_error = UnicodeEncodeError

definition is_surrogate :: "nat \<Rightarrow> bool" where
  "is_surrogate c \<longleftrightarrow> 0xD800 \<le> c \<and> c \<le> 0xDFFF"

definition encode_code_point :: "nat \<Rightarrow> bytes" where
  "encode_code_point c =
     (if c < 0x80 then [char_of c]
      else if c < 0x800 then [char_of (0xC0 + c div 0x40), char_of (0x80 + c mod 0x40)]
      else if c < 0x10000 then
        [char_of (0xE0 + c div 0x1000), char_of (0x80 + c div 0x40 mod 0x40),
         char_of (0x80 + c mod 0x40)]
      else
        [char_of (0xF0 + c div 0x40000), char_of (0x80 + c div 0x1000 mod 0x40),
         char_of (0x80 + c div 0x40 mod 0x40), char_of (0x80 + c mod 0x40)])"

definition str_encode :: "py_str \<Rightarrow> unicode_error + bytes" where
  "str_encode s =
     (if list_ex is_surrogate s then Inl UnicodeEncodeError
      else Inr (concat (map encode_code_point s)))"

text \<open>
  \<open>_verify_password\<close> on such strings. Line 55 encodes before the \<open>try\<close> of line 56,
  so its error leaves the method; the \<open>try\<close> covers \<open>bcrypt.checkpw\<close> alone, which
  is taken as a parameter here: any function of two byte strings that returns a Boolean
  or raises \<open>ValueError\<close>. \<open>verify_password\<close> above is this method on strings of code
  points below 256, with the \<open>checkpw\<close> of the bcrypt model in that place.
\<close>

definition verify_password_str ::
  "(bytes \<Rightarrow> bytes \<Rightarrow> py_error + bool) \<Rightarrow> py_str \<Rightarrow> py_str \<Rightarrow> bytes
     \<Rightarrow> unicode_error + bool" where
  "verify_password_str bcrypt_checkpw pepper_str password hashed =
     (case str_encode (password @ pepper_str) of
        Inl e \<Rightarrow> Inl e
      | Inr peppered_password \<Rightarrow>
          Inr (case bcrypt_checkpw peppered_password hashed of
                 Inr b \<Rightarrow> b
               | Inl ValueError \<Rightarrow> False))"

section \<open>Sequences of calls\<close>

text \<open>
  Consecutive \<open>login\<close> calls for one username, each with its password and its two
  clock readings.
\<close>

fun login_all ::
  "LoginSystem \<Rightarrow> digest_fn \<Rightarrow> db \<Rightarrow> string \<Rightarrow> (string \<times> timestamp \<times> timestamp) list
     \<Rightarrow> db" where
  "login_all self bf d username [] = d"
| "login_all self bf d username ((password, now, now') # rest) =
     login_all self bf (db_after (login self bf now now' d username password)) username rest"

text \<open>
  The tables that calls of \<open>register\<close>, \<open>login\<close> and \<open>_is_account_locked\<close>
  produce from the empty table, for instances that share \<open>max_attempts\<close>.
\<close>

inductive reachable :: "int \<Rightarrow> db \<Rightarrow> bool" for m :: int where
  reachable_empty: "reachable m Map.empty"
| reachable_register:
    "reachable m d \<Longrightarrow> max_attempts self = m \<Longrightarrow>
     reachable m (fst (register self bf now rnd d username password))"
| reachable_login:
    "reachable m d \<Longrightarrow> max_attempts self = m \<Longrightarrow>
     reachable m (db_after (login self bf now now' d username password))"
| reachable_check:
    "reachable m d \<Longrightarrow> reachable m (fst (is_account_locked now now' d username))"

section \<open>The strength checks as the specification words them\<close>

text \<open>
  The specification lists the checks in a fixed order, each with the reason it fails
  with, and returns the first failing reason.
\<close>

definition strength_checks :: "LoginSystem \<Rightarrow> (message \<times> (string \<Rightarrow> bool)) list" where
  "strength_checks self =
     [(PasswordTooShort (min_password_length self),
         \<lambda>password. length password < min_password_length self),
      (PasswordNoUppercase, \<lambda>password. \<not> list_ex is_upper password),
      (PasswordNoLowercase, \<lambda>password. \<not> list_ex is_lower password),
      (PasswordNoNumber, \<lambda>password. \<not> list_ex is_digit password),
      (PasswordNoSpecial, \<lambda>password. \<not> list_ex is_special password),
      (PasswordCommonPattern,
         \<lambda>password. list_ex (contains (lower password)) common_patterns)]"

fun first_failing :: "(message \<times> (string \<Rightarrow> bool)) list \<Rightarrow> string \<Rightarrow> message option" where
  "first_failing [] password = None"
| "first_failing ((reason, fails) # checks) password =
     (if fails password then Some reason else first_failing checks password)"

section \<open>Concrete inputs\<close>

definition example_token :: string where
  "example_token = ''00112233445566778899aabbccddeeff00112233445566778899aabbccddeeff''"

definition other_token :: string where
  "other_token = ''ffeeddccbbaa99887766554433221100ffeeddccbbaa99887766554433221100''"

definition example_rnd :: bytes where
  "example_rnd = ''abcdefghijklmnopqrstuv''"

definition example_system :: LoginSystem where
  "example_system = init None example_token"


text \<open>The table after \<open>alice\<close> registers at time 0.\<close>

definition alice_db :: db where
  "alice_db =
     fst (register example_system key_digest 0 example_rnd Map.empty
            ''alice'' ''Str0ng!Passw0rd'')"

definition alice_hash :: bytes where
  "alice_hash =
     gensalt 12 example_rnd @
     key_digest (gensalt 12 example_rnd) (take 72 (peppered example_system ''Str0ng!Passw0rd''))"

definition alice_row :: user_row where
  "alice_row =
     \<lparr> password_hash = alice_hash, failed_attempts = 0, last_attempt_time = None,
       locked_until = None, created_at = 0, last_login = None \<rparr>"

text \<open>The row of \<open>alice\<close> after a third failed login at time 7.\<close>

definition locked_row :: user_row where
  "locked_row = alice_row\<lparr>failed_attempts := 3, locked_until := Some 900000007\<rparr>"

definition locked_db :: db where
  "locked_db = [''alice'' \<mapsto> locked_row]"

section \<open>The invariant of a row\<close>

text \<open>
  An account that is not locked has fewer than \<open>m\<close> failed attempts; a locked account
  has exactly \<open>m\<close>.
\<close>

definition account_ok :: "int \<Rightarrow> user_row \<Rightarrow> bool" where
  "account_ok m row =
     (case locked_until row of
        None \<Rightarrow> 0 \<le> failed_attempts row \<and> failed_attempts row < m
      | Some t \<Rightarrow> failed_attempts row = m)"

definition db_ok :: "int \<Rightarrow> db \<Rightarrow> bool" where
  "db_ok m d = (\<forall>u row. d u = Some row \<longrightarrow> account_ok m row)"

text \<open>The table after three failed logins of \<open>alice\<close>.\<close>

definition three_failures :: db where
  "three_failures =
     login_all example_system key_digest alice_db ''alice''
       [(''wrong'', 5, 5), (''wrong'', 6, 6), (''wrong'', 7, 7)]"

section \<open>Hashing and verification\<close>

lemma length_gensalt: "length rnd = 22 \<Longrightarrow> length (gensalt 12 rnd) = 29"
  by (simp add: gensalt_def two_digits_def)

lemma valid_settings_gensalt:
  assumes "length rnd = 22" "list_all is_b64 rnd"
  shows "valid_settings (gensalt 12 rnd)"
  using assms
  by (simp add: valid_settings_def gensalt_def two_digits_def settings_cost_def is_digit_def cp_def)


lemma take_29_settings: "valid_settings s \<Longrightarrow> take 29 (s @ d) = s"
  by (simp add: valid_settings_def)

lemma verify_issued:
  assumes "valid_settings s"
  shows "verify_password self bf p (s @ d) \<longleftrightarrow> bf s (take 72 (peppered self p)) = d"
proof -
  have "take 29 (s @ d) = s"
    using assms by (rule take_29_settings)
  then show ?thesis
    using assms by (simp add: verify_password_def checkpw_def hashpw_def del: take_append)
qed

lemma hash_password_eq:
  assumes "length rnd = 22" "list_all is_b64 rnd"
  shows "hash_password self bf rnd p =
           Inr (gensalt 12 rnd @ bf (gensalt 12 rnd) (take 72 (peppered self p)))"
  using valid_settings_gensalt[OF assms] length_gensalt[OF assms(1)]
  by (simp add: hash_password_def hashpw_def)

lemma example_rnd_ok: "length example_rnd = 22" "list_all is_b64 example_rnd"
  by code_simp+






section \<open>The pepper across instances\<close>

lemma pepper_init: "pepper (init getenv token_hex) = (case getenv of Some v \<Rightarrow> v | None \<Rightarrow> token_hex)"
  by (simp add: init_def)

text \<open>
  C8, as the code has it. A hash issued by one instance is verified by a second instance
  whenever \<open>PASSWORD_PEPPER\<close> is set (to the same value for both). When it is not set,
  each instance draws its own pepper with \<open>secrets.token_hex\<close>, and the second instance
  verifies the hash exactly when the digests of the first 72 bytes of the password
  followed by either token are equal. The claim that verification succeeds also with no
  configured pepper fails for two instances with different tokens.
\<close>

theorem verify_across_instances:
  assumes "length rnd = 22" "list_all is_b64 rnd"
  shows "\<exists>h. hash_password (init getenv token1) bf rnd p = Inr h \<and>
           (case getenv of
              Some v \<Rightarrow> verify_password (init getenv token2) bf p h
            | None \<Rightarrow>
                (verify_password (init getenv token2) bf p h \<longleftrightarrow>
                   bf (gensalt 12 rnd) (take 72 (encode_utf8 (p @ token2))) =
                   bf (gensalt 12 rnd) (take 72 (encode_utf8 (p @ token1)))))"
  using verify_issued[OF valid_settings_gensalt[OF assms]] hash_password_eq[OF assms]
  by (auto simp: peppered_def pepper_init split: option.splits)

theorem verify_across_instances_witness:
  "length example_rnd = 22 \<and> list_all is_b64 example_rnd \<and>
   (\<exists>h. hash_password (init (Some ''configured pepper'') example_token) key_digest example_rnd
           ''Str0ng!Passw0rd'' = Inr h \<and>
        verify_password (init (Some ''configured pepper'') other_token) key_digest
           ''Str0ng!Passw0rd'' h)"
  using example_rnd_ok
    verify_across_instances[OF example_rnd_ok, of "Some ''configured pepper''"
      example_token key_digest "''Str0ng!Passw0rd''" other_token]
  by simp

theorem verify_across_instances_counterexample:
  "(case hash_password (init None example_token) key_digest example_rnd ''Str0ng!Passw0rd'' of
      Inl e \<Rightarrow> False
    | Inr h \<Rightarrow> \<not> verify_password (init None other_token) key_digest ''Str0ng!Passw0rd'' h)"
  by code_simp

section \<open>Malformed stored hashes\<close>

lemma cp_less: "cp c < 256"
  unfolding cp_def by (rule nat_of_char_less_256)

lemma encode_code_point_cp: "encode_code_point (cp c) = utf8_char c"
proof (cases "cp c < 128")
  case True
  then show ?thesis
    by (simp add: encode_code_point_def utf8_char_def cp_def)
next
  case False
  then show ?thesis
    using cp_less[of c] by (simp add: encode_code_point_def utf8_char_def)
qed

lemma no_surrogate_cp: "\<not> list_ex is_surrogate (map cp s)"
proof -
  have "\<not> is_surrogate (cp c)" for c
    using cp_less[of c] by (simp add: is_surrogate_def)
  then show ?thesis
    by (simp add: list_ex_iff)
qed

lemma str_encode_cp: "str_encode (map cp s) = Inr (encode_utf8 s)"
  using no_surrogate_cp[of s]
  by (simp add: str_encode_def encode_utf8_def encode_code_point_cp comp_def)

lemma verify_password_str_cp:
  "verify_password_str (checkpw bf) (map cp (pepper self)) (map cp p) h =
     Inr (verify_password self bf p h)"
  using str_encode_cp[of "p @ pepper self"]
  by (simp add: verify_password_str_def verify_password_def peppered_def)





section \<open>Single calls of login\<close>

lemma is_account_locked_open:
  "d u = Some row \<Longrightarrow> locked_until row = None \<Longrightarrow> is_account_locked now now' d u = (d, None)"
  by (simp add: is_account_locked_def)

lemma is_account_locked_absent:
  "d u = None \<Longrightarrow> is_account_locked now now' d u = (d, None)"
  by (simp add: is_account_locked_def)

lemma is_account_locked_denied:
  "d u = Some row \<Longrightarrow> locked_until row = Some t \<Longrightarrow> now < t \<Longrightarrow>
   is_account_locked now now' d u = (d, Some (AccountIsLocked (seconds_div_60 (t - now'))))"
  by (simp add: is_account_locked_def)

lemma is_account_locked_expired:
  "d u = Some row \<Longrightarrow> locked_until row = Some t \<Longrightarrow> t \<le> now \<Longrightarrow>
   is_account_locked now now' d u =
     (d(u \<mapsto> row\<lparr>failed_attempts := 0, locked_until := None\<rparr>), None)"
  by (simp add: is_account_locked_def)

lemma login_denied:
  "d u = Some row \<Longrightarrow> locked_until row = Some t \<Longrightarrow> now < t \<Longrightarrow>
   login self bf now now' d u p =
     \<lparr> db_after = d, returned = (False, AccountIsLocked (seconds_div_60 (t - now'))),
       derivations = [] \<rparr>"
  by (simp add: login_def is_account_locked_denied)

lemma login_absent:
  "d u = None \<Longrightarrow>
   login self bf now now' d u p =
     \<lparr> db_after = d, returned = (False, InvalidUsernameOrPassword),
       derivations = [default_rounds] \<rparr>"
  by (simp add: login_def is_account_locked_absent)

lemma login_success:
  "d u = Some row \<Longrightarrow> locked_until row = None \<Longrightarrow>
   verify_password self bf p (password_hash row) \<Longrightarrow>
   login self bf now now' d u p =
     \<lparr> db_after = d(u \<mapsto> row\<lparr>failed_attempts := 0, locked_until := None,
                                last_login := Some now\<rparr>),
       returned = (True, LoginSuccessful),
       derivations = hashpw_work (password_hash row) \<rparr>"
  by (simp add: login_def is_account_locked_open)

lemma login_failure:
  "d u = Some row \<Longrightarrow> locked_until row = None \<Longrightarrow>
   \<not> verify_password self bf p (password_hash row) \<Longrightarrow>
   login self bf now now' d u p =
     (if failed_attempts row + 1 \<ge> max_attempts self then
        \<lparr> db_after = d(u \<mapsto> row\<lparr>failed_attempts := failed_attempts row + 1,
                                   locked_until := Some (now + lockout_duration self)\<rparr>),
          returned = (False, AccountLockedTooManyAttempts
                        (seconds_div_60 (lockout_duration self))),
          derivations = hashpw_work (password_hash row) \<rparr>
      else
        \<lparr> db_after = d(u \<mapsto> row\<lparr>failed_attempts := failed_attempts row + 1,
                                   last_attempt_time := Some now\<rparr>),
          returned = (False, InvalidUsernameOrPassword),
          derivations = hashpw_work (password_hash row) \<rparr>)"
  by (simp add: login_def is_account_locked_open Let_def)

lemma login_expired:
  "d u = Some row \<Longrightarrow> locked_until row = Some t \<Longrightarrow> t \<le> now \<Longrightarrow>
   login self bf now now' d u p =
     login self bf now now' (d(u \<mapsto> row\<lparr>failed_attempts := 0, locked_until := None\<rparr>)) u p"
  by (simp add: login_def is_account_locked_expired is_account_locked_open)

section \<open>The example account\<close>

lemma strong_password: "validate_password_strength example_system ''Str0ng!Passw0rd'' = (True, PasswordOk)"
  by code_simp

lemma alice_username: "username_matches ''alice''"
  by code_simp

lemma alice_registered:
  "register example_system key_digest 0 example_rnd Map.empty ''alice'' ''Str0ng!Passw0rd'' =
     ([''alice'' \<mapsto> alice_row], True, RegistrationSuccessful)"
  using hash_password_eq[OF example_rnd_ok, of example_system key_digest "''Str0ng!Passw0rd''"]
  by (simp add: register_def strong_password alice_username alice_row_def alice_hash_def)

lemma alice_db_eq: "alice_db = [''alice'' \<mapsto> alice_row]"
  by (simp add: alice_db_def alice_registered)

lemma alice_wrong: "\<not> verify_password example_system key_digest ''wrong'' alice_hash"
  by code_simp


lemma max_attempts_example: "max_attempts example_system = 3" "lockout_duration example_system = 900000000"
  by (simp_all add: example_system_def init_def)

section \<open>Lockout\<close>

text \<open>
  C2. Consecutive failed logins on an account that is not locked: each one adds 1 to
  \<open>failed_attempts\<close>; as long as the count stays below \<open>max_attempts\<close> the account
  stays unlocked, and the call that brings the count to \<open>max_attempts\<close> sets
  \<open>locked_until\<close> to its reading of the clock plus \<open>lockout_duration\<close>.
\<close>

theorem consecutive_failed_logins:
  "attempts \<noteq> [] \<Longrightarrow> d u = Some row \<Longrightarrow> locked_until row = None \<Longrightarrow>
   list_all (\<lambda>(p, t, t'). \<not> verify_password self bf p (password_hash row)) attempts \<Longrightarrow>
   failed_attempts row + int (length attempts) \<le> max_attempts self \<Longrightarrow>
   \<exists>row'. login_all self bf d u attempts u = Some row' \<and>
     password_hash row' = password_hash row \<and>
     failed_attempts row' = failed_attempts row + int (length attempts) \<and>
     locked_until row' =
       (if failed_attempts row' = max_attempts self
        then Some (fst (snd (last attempts)) + lockout_duration self) else None)"
proof (induction attempts arbitrary: d row)
  case Nil
  then show ?case by simp
next
  case (Cons a rest)
  obtain p t t' where a: "a = (p, t, t')" by (cases a)
  have wrong: "\<not> verify_password self bf p (password_hash row)"
    using Cons.prems(4) a by simp
  have step: "login self bf t t' d u p =
     (if failed_attempts row + 1 \<ge> max_attempts self then
        \<lparr> db_after = d(u \<mapsto> row\<lparr>failed_attempts := failed_attempts row + 1,
                                   locked_until := Some (t + lockout_duration self)\<rparr>),
          returned = (False, AccountLockedTooManyAttempts
                        (seconds_div_60 (lockout_duration self))),
          derivations = hashpw_work (password_hash row) \<rparr>
      else
        \<lparr> db_after = d(u \<mapsto> row\<lparr>failed_attempts := failed_attempts row + 1,
                                   last_attempt_time := Some t\<rparr>),
          returned = (False, InvalidUsernameOrPassword),
          derivations = hashpw_work (password_hash row) \<rparr>)"
    using Cons.prems(2,3) wrong by (rule login_failure)
  show ?case
  proof (cases "rest = []")
    case True
    then show ?thesis
      using step a Cons.prems(3,5) by auto
  next
    case False
    then have below: "\<not> failed_attempts row + 1 \<ge> max_attempts self"
      using Cons.prems(5) by (cases rest) auto
    let ?row = "row\<lparr>failed_attempts := failed_attempts row + 1, last_attempt_time := Some t\<rparr>"
    let ?d = "d(u \<mapsto> ?row)"
    have next_db: "db_after (login self bf t t' d u p) = ?d"
      using step below by simp
    have "\<exists>row'. login_all self bf ?d u rest u = Some row' \<and>
       password_hash row' = password_hash ?row \<and>
       failed_attempts row' = failed_attempts ?row + int (length rest) \<and>
       locked_until row' =
         (if failed_attempts row' = max_attempts self
          then Some (fst (snd (last rest)) + lockout_duration self) else None)"
    proof (rule Cons.IH[OF False])
      show "?d u = Some ?row" by simp
      show "locked_until ?row = None" using Cons.prems(3) by simp
      show "list_all (\<lambda>(p, t, t'). \<not> verify_password self bf p (password_hash ?row)) rest"
        using Cons.prems(4) by (simp add: list_all_iff split_def)
      show "failed_attempts ?row + int (length rest) \<le> max_attempts self"
        using Cons.prems(5) by simp
    qed
    then show ?thesis
      using a next_db False by auto
  qed
qed

theorem consecutive_failed_logins_witness:
  "\<exists>row'. login_all example_system key_digest alice_db ''alice''
            [(''wrong'', 5, 5), (''wrong'', 6, 6), (''wrong'', 7, 7)] ''alice'' = Some row' \<and>
     password_hash row' = alice_hash \<and> failed_attempts row' = 3 \<and>
     locked_until row' = Some 900000007"
proof -
  have a: "alice_db ''alice'' = Some alice_row"
    by (simp add: alice_db_eq)
  have b: "locked_until alice_row = None" "password_hash alice_row = alice_hash"
    "failed_attempts alice_row = 0"
    by (simp_all add: alice_row_def)
  have c: "list_all (\<lambda>(p, t, t').
               \<not> verify_password example_system key_digest p (password_hash alice_row))
             [(''wrong'', 5::int, 5::int), (''wrong'', 6, 6), (''wrong'', 7, 7)]"
    using alice_wrong by (simp add: b)
  have e: "failed_attempts alice_row + int (length [(''wrong'', 5::int, 5::int), (''wrong'', 6, 6), (''wrong'', 7, 7)])
             \<le> max_attempts example_system"
    by (simp add: b max_attempts_example)
  show ?thesis
    using a b(1) c e
      consecutive_failed_logins[where d = alice_db and u = "''alice''" and row = alice_row
        and self = example_system and bf = key_digest
        and attempts = "[(''wrong'', 5, 5), (''wrong'', 6, 6), (''wrong'', 7, 7)]"]
    by (auto simp: b max_attempts_example)
qed

lemma remaining_minutes:
  assumes "0 \<le> r" "r < 86400000000"
  shows "60000000 * seconds_div_60 r \<le> r \<and> r < 60000000 * (seconds_div_60 r + 1)"
proof -
  have "r div 1000000 < 86400"
    using assms(2) by simp
  moreover have "0 \<le> r div 1000000"
    using assms(1) by simp
  ultimately have "seconds_div_60 r = r div 1000000 div 60"
    by (simp add: seconds_div_60_def)
  also have "\<dots> = r div (1000000 * 60)"
    by (simp add: zdiv_zmult2_eq)
  finally have m: "seconds_div_60 r = r div 60000000"
    by simp
  define q where "q = r div 60000000"
  define k where "k = r mod 60000000"
  have "r = 60000000 * q + k"
    by (simp add: q_def k_def)
  moreover have "0 \<le> k" and "k < 60000000"
    by (simp_all add: k_def)
  ultimately have "60000000 * q \<le> r \<and> r < 60000000 * (q + 1)"
    by (simp add: algebra_simps)
  then show ?thesis
    unfolding m q_def .
qed

lemma login_denied_minutes:
  assumes "d u = Some row" "locked_until row = Some t" "now < t"
    and "now' \<le> t" "t - now' < 86400000000"
  shows "\<exists>m. login self bf now now' d u p =
               \<lparr> db_after = d, returned = (False, AccountIsLocked m), derivations = [] \<rparr> \<and>
             60000000 * m \<le> t - now' \<and> t - now' < 60000000 * (m + 1)"
  using login_denied[where d = d and u = u, OF assms(1-3), of self bf now' p]
    remaining_minutes[of "t - now'"] assms(4,5)
  by simp

text \<open>
  C6. A login on an account whose \<open>locked_until\<close> lies after the reading of line 98
  returns the message "Account is locked", runs no key derivation, whatever the
  password, and leaves the table as it was. The minutes in the message are
  \<open>time_remaining.seconds // 60\<close> for the reading of line 99: the whole minutes of the
  remaining time when that reading is not after \<open>locked_until\<close>
  (\<open>login_denied_minutes\<close>), as for the readings 8 and 9 below. When the lock expires
  between the two readings, as for a reading one microsecond before \<open>locked_until\<close> and
  one a microsecond after it, the difference is negative, its \<open>seconds\<close> field is
  86399, and the message says 1439 minutes.
\<close>

theorem login_lock_expiring_between_readings:
  "login example_system key_digest 8 9 locked_db ''alice'' ''Str0ng!Passw0rd'' =
     \<lparr> db_after = locked_db, returned = (False, AccountIsLocked 14), derivations = [] \<rparr> \<and>
   login example_system key_digest 900000006 900000008 locked_db ''alice'' ''Str0ng!Passw0rd'' =
     \<lparr> db_after = locked_db, returned = (False, AccountIsLocked 1439), derivations = [] \<rparr>"
proof -
  have a: "locked_db ''alice'' = Some locked_row"
    by (simp add: locked_db_def)
  have b: "locked_until locked_row = Some 900000007"
    by (simp add: locked_row_def)
  have "(8::int) < 900000007" and "(900000006::int) < 900000007"
    by simp_all
  then show ?thesis
    using login_denied[where d = locked_db and u = "''alice''", OF a b,
        of 8 example_system key_digest 9 "''Str0ng!Passw0rd''"]
      login_denied[where d = locked_db and u = "''alice''", OF a b,
        of 900000006 example_system key_digest 900000008 "''Str0ng!Passw0rd''"]
    by (simp add: seconds_div_60_def)
qed



section \<open>The account invariants\<close>

lemma db_ok_update:
  "db_ok m d \<Longrightarrow> account_ok m row \<Longrightarrow> db_ok m (d(u \<mapsto> row))"
  by (simp add: db_ok_def)

lemma db_ok_lookup: "db_ok m d \<Longrightarrow> d u = Some row \<Longrightarrow> account_ok m row"
  by (simp add: db_ok_def)

lemma is_account_locked_ok:
  assumes "0 < m" "db_ok m d"
  shows "db_ok m (fst (is_account_locked now now' d u))"
proof (cases "d u")
  case None
  then show ?thesis using assms(2) by (simp add: is_account_locked_def)
next
  case (Some row)
  have "account_ok m (row\<lparr>failed_attempts := 0, locked_until := None\<rparr>)"
    using assms(1) by (simp add: account_ok_def)
  then show ?thesis
    using Some assms(2) by (auto simp: is_account_locked_def db_ok_update split: option.splits)
qed

lemma register_ok:
  assumes "0 < m" "db_ok m d"
  shows "db_ok m (fst (register self bf now rnd d u p))"
proof -
  have "account_ok m \<lparr> password_hash = h, failed_attempts = 0,
                           last_attempt_time = None, locked_until = None,
                           created_at = now, last_login = None \<rparr>" for h
    using assms(1) by (simp add: account_ok_def)
  then show ?thesis
    using assms(2)
    by (auto simp: register_def db_ok_update split: prod.splits bool.splits sum.splits option.splits)
qed

lemma login_open_ok:
  assumes "db_ok m d" "max_attempts self = m" "0 < m" "d u = Some row" "locked_until row = None"
  shows "db_ok m (db_after (login self bf now now' d u p))"
proof -
  have r: "account_ok m row" using assms(1,4) by (rule db_ok_lookup)
  then have f: "0 \<le> failed_attempts row" "failed_attempts row < m"
    using assms(5) by (simp_all add: account_ok_def)
  show ?thesis
  proof (cases "verify_password self bf p (password_hash row)")
    case True
    have "account_ok m (row\<lparr>failed_attempts := 0, locked_until := None, last_login := Some now\<rparr>)"
      using assms(3) by (simp add: account_ok_def)
    then show ?thesis
      using login_success[where d = d and u = u, OF assms(4,5) True, of now now'] assms(1) by (simp add: db_ok_update)
  next
    case False
    have a: "failed_attempts row + 1 \<ge> m \<Longrightarrow>
          account_ok m (row\<lparr>failed_attempts := failed_attempts row + 1,
                             locked_until := Some (now + lockout_duration self)\<rparr>)"
      using f by (simp add: account_ok_def)
    have b: "\<not> failed_attempts row + 1 \<ge> m \<Longrightarrow>
          account_ok m (row\<lparr>failed_attempts := failed_attempts row + 1,
                             last_attempt_time := Some now\<rparr>)"
      using f assms(5) by (simp add: account_ok_def)
    show ?thesis
      using login_failure[where d = d and u = u, OF assms(4,5) False, of now now'] assms(1,2) a b
      by (simp add: db_ok_update)
  qed
qed

lemma login_ok:
  assumes "0 < m" "db_ok m d" "max_attempts self = m"
  shows "db_ok m (db_after (login self bf now now' d u p))"
proof (cases "d u")
  case None
  then show ?thesis using assms(2) by (simp add: login_absent)
next
  case (Some row)
  show ?thesis
  proof (cases "locked_until row")
    case None
    then show ?thesis
      using login_open_ok[where d = d and u = u, OF assms(2,3,1) \<open>d u = Some row\<close>] by simp
  next
    case (Some t)
    show ?thesis
    proof (cases "now < t")
      case True
      then show ?thesis
        using login_denied[where d = d and u = u, OF \<open>d u = Some row\<close> Some True] assms(2) by simp
    next
      case False
      let ?row = "row\<lparr>failed_attempts := 0, locked_until := None\<rparr>"
      let ?d = "d(u \<mapsto> ?row)"
      have "account_ok m ?row" using assms(1) by (simp add: account_ok_def)
      then have ok: "db_ok m ?d" using assms(2) by (simp add: db_ok_update)
      have "login self bf now now' d u p = login self bf now now' ?d u p"
        using \<open>d u = Some row\<close> Some False
        by (intro login_expired[where d = d and u = u and t = t]) simp_all
      moreover have "db_ok m (db_after (login self bf now now' ?d u p))"
        by (rule login_open_ok[where d = ?d and u = u and row = ?row, OF ok assms(3,1)]) simp_all
      ultimately show ?thesis by simp
    qed
  qed
qed

lemma reachable_ok: "reachable m d \<Longrightarrow> 0 < m \<Longrightarrow> db_ok m d"
proof (induction rule: reachable.induct)
  case reachable_empty
  show ?case by (simp add: db_ok_def)
next
  case (reachable_register d self bf now rnd username password)
  then show ?case by (simp add: register_ok)
next
  case (reachable_login d self bf now now' username password)
  then show ?case by (simp add: login_ok)
next
  case (reachable_check d now now' username)
  then show ?case by (simp add: is_account_locked_ok)
qed

lemma three_failures_reachable: "reachable 3 three_failures"
  unfolding three_failures_def alice_db_def login_all.simps
  by (intro reachable.intros max_attempts_example(1))

lemma three_failures_alice:
  "three_failures ''alice'' =
     Some (alice_row\<lparr>failed_attempts := 3, last_attempt_time := Some 6,
                      locked_until := Some 900000007\<rparr>)"
proof -
  have a: "alice_db ''alice'' = Some alice_row"
    by (simp add: alice_db_eq)
  have b: "locked_until alice_row = None" "password_hash alice_row = alice_hash"
    "failed_attempts alice_row = 0"
    by (simp_all add: alice_row_def)
  show ?thesis
    unfolding three_failures_def login_all.simps
    using alice_wrong
    by (simp add: login_failure[where row = alice_row] login_failure a b max_attempts_example alice_db_eq)
qed

text \<open>
  C5. In every table that calls of \<open>register\<close>, \<open>login\<close> and \<open>_is_account_locked\<close>
  produce from the empty table, every row has \<open>0 \<le> failed_attempts \<le> max_attempts\<close>,
  and \<open>failed_attempts \<ge> max_attempts\<close> whenever \<open>locked_until\<close> is set. Each call
  preserves the stronger \<open>account_ok\<close> for all rows.
\<close>

theorem account_invariants:
  assumes "0 < m" "reachable m d" "d u = Some row"
  shows "0 \<le> failed_attempts row \<and> failed_attempts row \<le> m \<and>
         (locked_until row \<noteq> None \<longrightarrow> failed_attempts row \<ge> m)"
  using db_ok_lookup[where d = d and u = u, OF reachable_ok[OF assms(2,1)] assms(3)] assms(1)
  by (auto simp: account_ok_def split: option.splits)

theorem account_invariants_witness:
  "reachable 3 three_failures \<and>
   three_failures ''alice'' =
     Some (alice_row\<lparr>failed_attempts := 3, last_attempt_time := Some 6,
                      locked_until := Some 900000007\<rparr>) \<and>
   0 \<le> failed_attempts (alice_row\<lparr>failed_attempts := 3, last_attempt_time := Some 6,
                      locked_until := Some 900000007\<rparr>) \<and>
   failed_attempts (alice_row\<lparr>failed_attempts := 3, last_attempt_time := Some 6,
                      locked_until := Some 900000007\<rparr>) \<le> 3 \<and>
   locked_until (alice_row\<lparr>failed_attempts := 3, last_attempt_time := Some 6,
                      locked_until := Some 900000007\<rparr>) \<noteq> None \<and>
   failed_attempts (alice_row\<lparr>failed_attempts := 3, last_attempt_time := Some 6,
                      locked_until := Some 900000007\<rparr>) \<ge> 3"
proof -
  have m: "(0::int) < 3" by simp
  show ?thesis
    using three_failures_reachable three_failures_alice
      account_invariants[where d = three_failures and u = "''alice''",
        OF m three_failures_reachable three_failures_alice]
    by simp
qed

section \<open>Password strength\<close>

lemma validate_first_failing:
  "validate_password_strength self p =
     (case first_failing (strength_checks self) p of
        None \<Rightarrow> (True, PasswordOk)
      | Some reason \<Rightarrow> (False, reason))"
  by (simp add: validate_password_strength_def strength_checks_def)

text \<open>
  C9. \<open>_validate_password_strength\<close> returns the first failing reason in the order
  length, uppercase, lowercase, digit, special character, common pattern; and
  \<open>register\<close> with a well-formed username and a password of length 11 fails with the
  reason "too short" when the minimum is 12, whatever characters the password has.
\<close>

theorem first_failing_reason:
  "validate_password_strength self p =
     (case first_failing (strength_checks self) p of
        None \<Rightarrow> (True, PasswordOk)
      | Some reason \<Rightarrow> (False, reason)) \<and>
   (3 \<le> length u \<and> username_matches u \<and> length p = 11 \<and> min_password_length self = 12 \<longrightarrow>
      register self bf now rnd d u p = (d, False, PasswordTooShort 12))"
proof (intro conjI impI)
  show "validate_password_strength self p =
     (case first_failing (strength_checks self) p of
        None \<Rightarrow> (True, PasswordOk)
      | Some reason \<Rightarrow> (False, reason))"
    by (rule validate_first_failing)
next
  assume "3 \<le> length u \<and> username_matches u \<and> length p = 11 \<and> min_password_length self = 12"
  then show "register self bf now rnd d u p = (d, False, PasswordTooShort 12)"
    by (auto simp: register_def validate_password_strength_def)
qed

theorem first_failing_reason_witness:
  "3 \<le> length ''alice'' \<and> username_matches ''alice'' \<and> length ''Aa1!Aa1!Aa1'' = 11 \<and>
   min_password_length example_system = 12 \<and>
   list_ex is_upper ''Aa1!Aa1!Aa1'' \<and> list_ex is_lower ''Aa1!Aa1!Aa1'' \<and>
   list_ex is_digit ''Aa1!Aa1!Aa1'' \<and> list_ex is_special ''Aa1!Aa1!Aa1'' \<and>
   validate_password_strength example_system ''Aa1!Aa1!Aa1'' = (False, PasswordTooShort 12) \<and>
   register example_system key_digest 0 example_rnd Map.empty ''alice'' ''Aa1!Aa1!Aa1'' =
     (Map.empty, False, PasswordTooShort 12)"
proof -
  have a: "3 \<le> length ''alice''" "length ''Aa1!Aa1!Aa1'' = 11"
    "min_password_length example_system = 12"
    by (simp_all add: example_system_def init_def)
  have b: "list_ex is_upper ''Aa1!Aa1!Aa1''" "list_ex is_lower ''Aa1!Aa1!Aa1''"
    "list_ex is_digit ''Aa1!Aa1!Aa1''" "list_ex is_special ''Aa1!Aa1!Aa1''"
    by code_simp+
  have c: "first_failing (strength_checks example_system) ''Aa1!Aa1!Aa1'' =
             Some (PasswordTooShort 12)"
    by (simp add: strength_checks_def a)
  show ?thesis
    using a b c alice_username
      first_failing_reason[of example_system "''Aa1!Aa1!Aa1''" "''alice''" key_digest 0
        example_rnd Map.empty]
    by simp
qed

end
